theory Spec2Isabelle
  imports Main "HOL-Library.Word"
begin

section \<open>rewrite\_raw\_ptr\_fields: raw pointer fields into CheckedPtr\<close>

text \<open>
  A shallow embedding of \<^verbatim>\<open>RewriteRawPtrFields.cpp\<close>: the match callback
  \<^verbatim>\<open>FieldDeclRewriter::run\<close>, the text generator \<^verbatim>\<open>GenerateNewText\<close>, and
  \<^verbatim>\<open>main\<close> with its serialization loop. The compiler front end (types, source
  locations, the type printer, the tool runner) is a library the program calls; the
  parts of it the program touches are modelled in the first two subsections.
\<close>

subsection \<open>Types of the front end and their printer\<close>

text \<open>
  A \<^verbatim>\<open>clang::QualType\<close>: a type together with its top-level const/volatile
  qualifiers. Three shapes of type are enough for the fields of the test file: builtin
  types (\<^verbatim>\<open>void\<close>, \<^verbatim>\<open>int\<close>), tag types (a class, struct, union or enum, whose use may
  have been written with its keyword, \<^verbatim>\<open>class SomeClass\<close>, or without), and pointers.
\<close>

datatype Qualifiers = Qualifiers (hasConst: bool) (hasVolatile: bool)

datatype TagKind = TTK_Struct | TTK_Class | TTK_Union | TTK_Enum

datatype QualType =
    BuiltinType Qualifiers string
  | TagType Qualifiers bool TagKind string
  | PointerType Qualifiers QualType

abbreviation unqualified :: Qualifiers where
  "unqualified \<equiv> Qualifiers False False"

fun isPointerType :: "QualType \<Rightarrow> bool" where
  "isPointerType (PointerType q pointee) = True"
| "isPointerType (BuiltinType q n) = False"
| "isPointerType (TagType q written_with_keyword k n) = False"

text \<open>\<^verbatim>\<open>clang::LangOptions\<close> and \<^verbatim>\<open>clang::PrintingPolicy\<close>, reduced to the one flag the
  program sets. A default-constructed \<^verbatim>\<open>LangOptions\<close> is not C++, and the policy built
  from it starts with \<^verbatim>\<open>SuppressTagKeyword\<close> taken from that.\<close>

record LangOptions =
  CPlusPlus :: bool

record PrintingPolicy =
  SuppressTagKeyword :: bool

definition default_LangOptions :: LangOptions where
  "default_LangOptions = \<lparr>CPlusPlus = False\<rparr>"

definition PrintingPolicy_of :: "LangOptions \<Rightarrow> PrintingPolicy" where
  "PrintingPolicy_of lo = \<lparr>SuppressTagKeyword = CPlusPlus lo\<rparr>"

fun getKeywordName :: "TagKind \<Rightarrow> string" where
  "getKeywordName TTK_Struct = ''struct''"
| "getKeywordName TTK_Class = ''class''"
| "getKeywordName TTK_Union = ''union''"
| "getKeywordName TTK_Enum = ''enum''"

fun qualifiers_before :: "Qualifiers \<Rightarrow> string" where
  "qualifiers_before (Qualifiers c v) =
     (if c then ''const '' else []) @ (if v then ''volatile '' else [])"

fun qualifiers_after :: "Qualifiers \<Rightarrow> string" where
  "qualifiers_after (Qualifiers c v) =
     (if c then '' const'' else []) @ (if v then '' volatile'' else [])"

text \<open>
  Modelled from the spec: the front end's type printer \<^verbatim>\<open>QualType::getAsString\<close>,
  which the program calls and which is not part of the repository. The spec fixes that a
  class or struct named \<^verbatim>\<open>Foo\<close> renders as \<^verbatim>\<open>Foo\<close>, not \<^verbatim>\<open>class Foo\<close>, under the
  policy that suppresses tag keywords; that \<^verbatim>\<open>void\<close> renders as \<^verbatim>\<open>void\<close>; and that a
  pointer renders as its pointee followed by \<^verbatim>\<open>*\<close> (\<^verbatim>\<open>SomeClass*\<close>). Qualifiers are
  spelled as in the spec's example \<^verbatim>\<open>const Pointee* const\<close>: before a non-pointer type,
  after the star of a pointer.
\<close>

fun getAsString :: "PrintingPolicy \<Rightarrow> QualType \<Rightarrow> string" where
  "getAsString policy (BuiltinType q n) = qualifiers_before q @ n"
| "getAsString policy (TagType q written_with_keyword k n) =
     qualifiers_before q
       @ (if SuppressTagKeyword policy then [] else getKeywordName k @ '' '')
       @ n"
| "getAsString policy (PointerType q pointee) =
     getAsString policy pointee @ ''*'' @ qualifiers_after q"

subsection \<open>Source locations and replacements\<close>

text \<open>
  A field declaration as the match callback sees it: the file that holds it, the byte
  offset of the declaration's first token (\<^verbatim>\<open>getBeginLoc\<close>), the byte offset of the
  field's name (\<^verbatim>\<open>getLocation\<close>) and the declared type. A \<^verbatim>\<open>SourceLocation\<close> is a
  32-bit unsigned value; locations are given here as the offsets into their file that
  the source manager decomposes them to.
\<close>

type_synonym SourceLocation = "32 word"

record FieldDecl =
  getFile :: string
  getBeginLoc :: SourceLocation
  getLocation :: SourceLocation
  getType :: QualType

definition getLocWithOffset :: "SourceLocation \<Rightarrow> int \<Rightarrow> SourceLocation" where
  "getLocWithOffset loc k = loc + word_of_int k"

text \<open>\<^verbatim>\<open>clang::tooling::Replacement\<close>: file path, offset and length (both
  \<^verbatim>\<open>unsigned\<close>) and the replacement text.\<close>

record Replacement =
  getFilePath :: string
  getOffset :: "32 word"
  getLength :: "32 word"
  getReplacementText :: string

text \<open>The constructor \<^verbatim>\<open>Replacement(source_manager, char_range, text)\<close>: a character
  range \<open>(b, e)\<close> of one file starts at \<open>b\<close> and is \<open>e - b\<close> bytes long (no token
  length is added for a character range).\<close>

definition Replacement_of_range ::
  "string \<Rightarrow> SourceLocation \<times> SourceLocation \<Rightarrow> string \<Rightarrow> Replacement" where
  "Replacement_of_range file char_range text =
     \<lparr>getFilePath = file, getOffset = fst char_range,
      getLength = snd char_range - fst char_range, getReplacementText = text\<rparr>"

subsection \<open>FieldDeclRewriter\<close>

text \<open>The two \<^verbatim>\<open>assert\<close>s of the class. A failed assertion aborts the process.\<close>

datatype assertion_failure =
    Matcher_should_only_match_pointer_types
  | Caller_must_pass_a_pointer_type

definition GenerateNewText :: "QualType \<Rightarrow> assertion_failure + string" where
  "GenerateNewText pointer_type =
     (case pointer_type of
        PointerType q pointee_type \<Rightarrow>
          (let lang_options = default_LangOptions;
               printing_policy = (PrintingPolicy_of lang_options)\<lparr>SuppressTagKeyword := True\<rparr>;
               pointee_type_as_string = getAsString printing_policy pointee_type
           in Inr (''CheckedPtr<'' @ pointee_type_as_string @ ''>''))
      | _ \<Rightarrow> Inl Caller_must_pass_a_pointer_type)"

text \<open>\<^verbatim>\<open>run\<close> appends to the vector \<^verbatim>\<open>replacements_\<close>, passed and returned here.\<close>

definition run :: "FieldDecl \<Rightarrow> Replacement list \<Rightarrow> assertion_failure + Replacement list" where
  "run field_decl replacements =
     (let pointer_type = getType field_decl in
      if \<not> isPointerType pointer_type then Inl Matcher_should_only_match_pointer_types
      else
        let replacement_range =
              (getBeginLoc field_decl, getLocWithOffset (getLocation field_decl) (- 1))
        in case GenerateNewText pointer_type of
             Inl failure \<Rightarrow> Inl failure
           | Inr new_text \<Rightarrow>
               Inr (replacements
                     @ [Replacement_of_range (getFile field_decl) replacement_range new_text]))"

subsection \<open>The tool runner and main\<close>

text \<open>
  A translation unit as the tool runner hands it to the match finder: whether the front
  end processed it without error, and its field declarations in traversal order.
\<close>

record TranslationUnit =
  parsed_ok :: bool
  field_decls :: "FieldDecl list"

text \<open>\<^verbatim>\<open>fieldDecl(hasType(pointerType()))\<close>: a field declaration whose type is a
  pointer type.\<close>

definition field_decl_matcher :: "FieldDecl \<Rightarrow> bool" where
  "field_decl_matcher field_decl =
     (case getType field_decl of PointerType q pointee \<Rightarrow> True | _ \<Rightarrow> False)"

text \<open>The match finder calls the callback bound to the matcher on every match.\<close>

fun matchAST :: "FieldDecl list \<Rightarrow> Replacement list \<Rightarrow> assertion_failure + Replacement list" where
  "matchAST [] replacements = Inr replacements"
| "matchAST (d # ds) replacements =
     (if field_decl_matcher d
      then (case run d replacements of
              Inl failure \<Rightarrow> Inl failure
            | Inr replacements' \<Rightarrow> matchAST ds replacements')
      else matchAST ds replacements)"

text \<open>
  Modelled from the spec: the tool runner \<^verbatim>\<open>ClangTool::run\<close>, which is not part of
  the repository. It processes every translation unit in turn, goes on after a unit that
  failed, and its overall result is nonzero when any unit failed.
\<close>

fun process_units ::
  "TranslationUnit list \<Rightarrow> bool \<Rightarrow> Replacement list \<Rightarrow> assertion_failure + bool \<times> Replacement list" where
  "process_units [] processing_failed replacements = Inr (processing_failed, replacements)"
| "process_units (tu # tus) processing_failed replacements =
     (case matchAST (field_decls tu) replacements of
        Inl failure \<Rightarrow> Inl failure
      | Inr replacements' \<Rightarrow>
          process_units tus (processing_failed \<or> \<not> parsed_ok tu) replacements')"

definition tool_run ::
  "TranslationUnit list \<Rightarrow> Replacement list \<Rightarrow> assertion_failure + int \<times> Replacement list" where
  "tool_run tus replacements =
     (case process_units tus False replacements of
        Inl failure \<Rightarrow> Inl failure
      | Inr (processing_failed, replacements') \<Rightarrow>
          Inr (if processing_failed then 1 else 0, replacements'))"

text \<open>Printing an \<^verbatim>\<open>unsigned\<close> to the output stream: decimal, no padding.\<close>

definition digit_char :: "nat \<Rightarrow> char" where
  "digit_char d = ''0123456789'' ! d"

fun to_dec :: "nat \<Rightarrow> string" where
  "to_dec n = (if n < 10 then [digit_char n] else to_dec (n div 10) @ [digit_char (n mod 10)])"

declare to_dec.simps [simp del]

abbreviation newline :: char where
  "newline \<equiv> CHR 0x0A"

abbreviation NUL :: char where
  "NUL \<equiv> CHR 0x00"

text \<open>\<^verbatim>\<open>std::replace(first, last, old_value, new_value)\<close> on a string.\<close>

definition std_replace :: "char \<Rightarrow> char \<Rightarrow> string \<Rightarrow> string" where
  "std_replace old_value new_value s = map (\<lambda>c. if c = old_value then new_value else c) s"

text \<open>The body of the serialization loop: what one replacement adds to the output.\<close>

definition print_edit :: "Replacement \<Rightarrow> string" where
  "print_edit r =
     (let replacement_text = std_replace newline NUL (getReplacementText r)
      in ''r:::'' @ getFilePath r @ '':::'' @ to_dec (unat (getOffset r))
           @ '':::'' @ to_dec (unat (getLength r)) @ '':::'' @ replacement_text @ [newline])"

fun print_edits :: "Replacement list \<Rightarrow> string" where
  "print_edits [] = []"
| "print_edits (r # rs) = print_edit r @ print_edits rs"

definition begin_edits :: string where
  "begin_edits = ''==== BEGIN EDITS ===='' @ [newline]"

definition end_edits :: string where
  "end_edits = ''==== END EDITS ===='' @ [newline]"

text \<open>
  \<^verbatim>\<open>main\<close>, from the tool run on: \<open>Inl\<close> is a process aborted by a failed assertion,
  \<open>Inr (status, out)\<close> a process that returned \<open>status\<close> having written \<open>out\<close> to
  its standard output.
\<close>

definition main :: "TranslationUnit list \<Rightarrow> assertion_failure + int \<times> string" where
  "main tus =
     (case tool_run tus [] of
        Inl failure \<Rightarrow> Inl failure
      | Inr (result, replacements) \<Rightarrow>
          if result \<noteq> 0 then Inr (result, [])
          else Inr (0, begin_edits @ print_edits replacements @ end_edits))"

subsection \<open>The consumer of the edits\<close>

text \<open>The byte offsets a replacement covers: the half-open range that starts at its
  offset and has its length.\<close>

definition replacement_span :: "Replacement \<Rightarrow> nat set" where
  "replacement_span r = {unat (getOffset r) ..< unat (getOffset r) + unat (getLength r)}"

definition replaced_text :: "string \<Rightarrow> Replacement \<Rightarrow> string" where
  "replaced_text src r = take (unat (getLength r)) (drop (unat (getOffset r)) src)"

text \<open>
  Modelled from the spec: the downstream batch edit-applier, which is not under the
  sources read here. It substitutes the byte span from \<open>offset\<close> to \<open>offset + length\<close>
  of the file's original text with the replacement text.
\<close>

definition apply_replacement :: "string \<Rightarrow> Replacement \<Rightarrow> string" where
  "apply_replacement src r =
     take (unat (getOffset r)) src @ getReplacementText r
       @ drop (unat (getOffset r) + unat (getLength r)) src"

text \<open>Whether the delimiter \<^verbatim>\<open>:::\<close> occurs in a string.\<close>

fun has_delimiter :: "string \<Rightarrow> bool" where
  "has_delimiter [] = False"
| "has_delimiter (c # cs) = (take 3 (c # cs) = '':::'' \<or> has_delimiter cs)"

definition ends_with_colon :: "string \<Rightarrow> bool" where
  "ends_with_colon s = (case rev s of [] \<Rightarrow> False | c # cs \<Rightarrow> c = CHR '':'')"

text \<open>
  Modelled from the spec: the parser of the documented line format, which is not under
  the sources read here. A line is cut into its fields at the literal delimiter
  \<^verbatim>\<open>:::\<close>, scanning from the left; the five fields are the tag \<^verbatim>\<open>r\<close>, the file path,
  the offset and the length in decimal, and the replacement text, in which every null
  byte stands for a newline.
\<close>

fun split_fields :: "string \<Rightarrow> string list" where
  "split_fields [] = [[]]"
| "split_fields (c # cs) =
     (if take 3 (c # cs) = '':::'' then [] # split_fields (drop 2 cs)
      else (case split_fields cs of
              [] \<Rightarrow> [[c]]
            | f # fs \<Rightarrow> (c # f) # fs))"

definition digit_value :: "char \<Rightarrow> nat option" where
  "digit_value c =
     map_of [(CHR ''0'', 0), (CHR ''1'', 1), (CHR ''2'', 2), (CHR ''3'', 3), (CHR ''4'', 4),
             (CHR ''5'', 5), (CHR ''6'', 6), (CHR ''7'', 7), (CHR ''8'', 8), (CHR ''9'', 9)] c"

fun from_dec_digits :: "string \<Rightarrow> nat \<Rightarrow> nat option" where
  "from_dec_digits [] acc = Some acc"
| "from_dec_digits (c # cs) acc =
     (case digit_value c of
        None \<Rightarrow> None
      | Some d \<Rightarrow> from_dec_digits cs (10 * acc + d))"

definition from_dec :: "string \<Rightarrow> nat option" where
  "from_dec s = (if s = [] then None else from_dec_digits s 0)"

definition parse_edit :: "string \<Rightarrow> Replacement option" where
  "parse_edit line =
     (case split_fields line of
        [tag, path, offset_field, length_field, text] \<Rightarrow>
          if tag = ''r'' then
            (case from_dec offset_field of
               None \<Rightarrow> None
             | Some off \<Rightarrow>
                 (case from_dec length_field of
                    None \<Rightarrow> None
                  | Some len \<Rightarrow>
                      Some \<lparr>getFilePath = path, getOffset = of_nat off, getLength = of_nat len,
                            getReplacementText = std_replace NUL newline text\<rparr>))
          else None
      | _ \<Rightarrow> None)"

text \<open>
  Modelled from the spec: the reader of the printed edits, which is not under the sources
  read here. The format has one line per record, so the reader cuts what was printed at
  every newline byte and parses each line on its own. \<open>read_lines_from cur s\<close> reads
  \<open>s\<close> with the bytes of the line begun so far in \<open>cur\<close>, last byte first.
\<close>

fun read_lines_from :: "string \<Rightarrow> string \<Rightarrow> string list" where
  "read_lines_from cur [] = (if cur = [] then [] else [rev cur])"
| "read_lines_from cur (c # cs) =
     (if c = newline then rev cur # read_lines_from [] cs
      else read_lines_from (c # cur) cs)"

definition read_lines :: "string \<Rightarrow> string list" where
  "read_lines s = read_lines_from [] s"

definition parse_edits :: "string \<Rightarrow> Replacement option list" where
  "parse_edits printed = map parse_edit (read_lines printed)"

text \<open>The edits of one translation unit: the replacements the match finder collects
  over that unit alone.\<close>

definition unit_edits :: "TranslationUnit \<Rightarrow> Replacement list" where
  "unit_edits tu =
     (case matchAST (field_decls tu) [] of
        Inl failure \<Rightarrow> []
      | Inr replacements \<Rightarrow> replacements)"

text \<open>The fields the matcher accepts, over all units, in the order they are visited.\<close>

definition matched_fields :: "TranslationUnit list \<Rightarrow> FieldDecl list" where
  "matched_fields tus = concat (map (\<lambda>tu. filter field_decl_matcher (field_decls tu)) tus)"

subsection \<open>Fields used as examples\<close>

text \<open>The fields \<^verbatim>\<open>SomeClass** double_ptr;\<close> and \<^verbatim>\<open>void* void_ptr;\<close> of the test file,
  each as a declaration at the start of its own text.\<close>

definition SomeClass :: QualType where
  "SomeClass = TagType unqualified False TTK_Class ''SomeClass''"

definition double_ptr_src :: string where
  "double_ptr_src = ''SomeClass** double_ptr;''"

definition double_ptr :: FieldDecl where
  "double_ptr = \<lparr>getFile = ''basics.cc'', getBeginLoc = 0, getLocation = 12,
     getType = PointerType unqualified (PointerType unqualified SomeClass)\<rparr>"

definition void_ptr_src :: string where
  "void_ptr_src = ''void* void_ptr;''"

definition void_ptr :: FieldDecl where
  "void_ptr = \<lparr>getFile = ''basics.cc'', getBeginLoc = 0, getLocation = 6,
     getType = PointerType unqualified (BuiltinType unqualified ''void'')\<rparr>"

text \<open>The example of the comment in \<^verbatim>\<open>run\<close>, \<^verbatim>\<open>const Pointee* const field_name_;\<close>.\<close>

definition field_name_src :: string where
  "field_name_src = ''const Pointee* const field_name_;''"

definition field_name :: FieldDecl where
  "field_name = \<lparr>getFile = ''pointee.h'', getBeginLoc = 0, getLocation = 21,
     getType = PointerType (Qualifiers True False)
                 (TagType (Qualifiers True False) False TTK_Class ''Pointee'')\<rparr>"

text \<open>A field whose star is written next to its name, \<^verbatim>\<open>int *p;\<close> in
  \<^verbatim>\<open>struct S { int *p; };\<close>: the declaration starts at byte 11, the name at byte 16.\<close>

definition star_src :: string where
  "star_src = ''struct S { int *p; };''"

definition star_field :: FieldDecl where
  "star_field = \<lparr>getFile = ''s.h'', getBeginLoc = 11, getLocation = 16,
     getType = PointerType unqualified (BuiltinType unqualified ''int'')\<rparr>"

text \<open>A field that is not a pointer, \<^verbatim>\<open>int n;\<close>.\<close>

definition int_field :: FieldDecl where
  "int_field = \<lparr>getFile = ''s.h'', getBeginLoc = 0, getLocation = 4,
     getType = BuiltinType unqualified ''int''\<rparr>"

text \<open>Translation units over these fields: the test file, a unit the front end fails
  on, a second unit that parses, and a unit with no pointer field.\<close>

definition unit_basics :: TranslationUnit where
  "unit_basics = \<lparr>parsed_ok = True, field_decls = [double_ptr, int_field, void_ptr]\<rparr>"

definition unit_broken :: TranslationUnit where
  "unit_broken = \<lparr>parsed_ok = False, field_decls = [star_field]\<rparr>"

definition unit_pointee :: TranslationUnit where
  "unit_pointee = \<lparr>parsed_ok = True, field_decls = [field_name]\<rparr>"

text \<open>A unit that includes the header of the second unit: it sees the field of
  \<^verbatim>\<open>pointee.h\<close> and a field of its own.\<close>

definition unit_includes_pointee :: TranslationUnit where
  "unit_includes_pointee = \<lparr>parsed_ok = True, field_decls = [field_name, star_field]\<rparr>"

definition unit_no_pointers :: TranslationUnit where
  "unit_no_pointers = \<lparr>parsed_ok = True, field_decls = [int_field]\<rparr>"

section \<open>Properties\<close>

subsection \<open>The callback and the run of the tool\<close>

lemma GenerateNewText_pointer:
  "GenerateNewText (PointerType q pointee) =
     Inr (''CheckedPtr<'' @ getAsString \<lparr>SuppressTagKeyword = True\<rparr> pointee @ ''>'')"
  by (simp add: GenerateNewText_def default_LangOptions_def PrintingPolicy_of_def)

lemma GenerateNewText_not_pointer:
  "\<not> isPointerType t \<Longrightarrow> GenerateNewText t = Inl Caller_must_pass_a_pointer_type"
  by (cases t) (simp_all add: GenerateNewText_def)

lemma field_decl_matcher_iff: "field_decl_matcher d = isPointerType (getType d)"
  by (cases "getType d") (simp_all add: field_decl_matcher_def)

lemma run_pointer:
  assumes "getType d = PointerType q pointee"
  shows "run d reps =
     Inr (reps @ [\<lparr>getFilePath = getFile d, getOffset = getBeginLoc d,
                    getLength = getLocation d - 1 - getBeginLoc d,
                    getReplacementText =
                      ''CheckedPtr<'' @ getAsString \<lparr>SuppressTagKeyword = True\<rparr> pointee @ ''>''\<rparr>])"
  using assms
  by (simp add: run_def GenerateNewText_pointer Replacement_of_range_def getLocWithOffset_def)

lemma run_not_pointer:
  "\<not> isPointerType (getType d) \<Longrightarrow> run d reps = Inl Matcher_should_only_match_pointer_types"
  by (simp add: run_def)

lemma run_matched:
  assumes "field_decl_matcher d"
  shows "\<exists>r. run d [] = Inr [r] \<and> run d reps = Inr (reps @ [r])"
proof -
  from assms obtain q pointee where "getType d = PointerType q pointee"
    by (cases "getType d") (simp_all add: field_decl_matcher_def)
  then show ?thesis
    using run_pointer [of d q pointee] by simp
qed

lemma matchAST_appends:
  "\<exists>rs. matchAST ds reps = Inr (reps @ rs)
        \<and> list_all2 (\<lambda>d r. run d [] = Inr [r]) (filter field_decl_matcher ds) rs"
proof (induction ds arbitrary: reps)
  case Nil
  show ?case by simp
next
  case (Cons d ds)
  show ?case
  proof (cases "field_decl_matcher d")
    case False
    with Cons.IH [of reps] show ?thesis by simp
  next
    case True
    then obtain r where r: "run d [] = Inr [r]" "run d reps = Inr (reps @ [r])"
      using run_matched by blast
    from Cons.IH [of "reps @ [r]"] obtain rs where
      rs: "matchAST ds (reps @ [r]) = Inr ((reps @ [r]) @ rs)"
          "list_all2 (\<lambda>d r. run d [] = Inr [r]) (filter field_decl_matcher ds) rs"
      by blast
    have "matchAST (d # ds) reps = Inr (reps @ (r # rs))"
      using True r rs by simp
    moreover have "list_all2 (\<lambda>d r. run d [] = Inr [r]) (filter field_decl_matcher (d # ds)) (r # rs)"
      using True r rs by simp
    ultimately show ?thesis by blast
  qed
qed

lemma process_units_appends:
  "\<exists>rs. process_units tus failed reps
           = Inr (failed \<or> \<not> list_all parsed_ok tus, reps @ rs)
        \<and> list_all2 (\<lambda>d r. run d [] = Inr [r]) (matched_fields tus) rs"
proof (induction tus arbitrary: failed reps)
  case Nil
  show ?case by (simp add: matched_fields_def)
next
  case (Cons tu tus)
  obtain rs1 where rs1: "matchAST (field_decls tu) reps = Inr (reps @ rs1)"
      "list_all2 (\<lambda>d r. run d [] = Inr [r]) (filter field_decl_matcher (field_decls tu)) rs1"
    using matchAST_appends by blast
  from Cons.IH [of "failed \<or> \<not> parsed_ok tu" "reps @ rs1"] obtain rs2 where
    rs2: "process_units tus (failed \<or> \<not> parsed_ok tu) (reps @ rs1)
            = Inr ((failed \<or> \<not> parsed_ok tu) \<or> \<not> list_all parsed_ok tus, (reps @ rs1) @ rs2)"
         "list_all2 (\<lambda>d r. run d [] = Inr [r]) (matched_fields tus) rs2"
    by blast
  have "process_units (tu # tus) failed reps
          = Inr (failed \<or> \<not> list_all parsed_ok (tu # tus), reps @ (rs1 @ rs2))"
    using rs1 rs2 by auto
  moreover have "list_all2 (\<lambda>d r. run d [] = Inr [r]) (matched_fields (tu # tus)) (rs1 @ rs2)"
    using rs1 rs2 by (simp add: matched_fields_def list_all2_appendI)
  ultimately show ?case by blast
qed

lemma tool_run_result:
  "\<exists>rs. tool_run tus [] = Inr (if list_all parsed_ok tus then 0 else 1, rs)
        \<and> list_all2 (\<lambda>d r. run d [] = Inr [r]) (matched_fields tus) rs"
proof -
  obtain rs where "process_units tus False [] = Inr (False \<or> \<not> list_all parsed_ok tus, [] @ rs)"
    "list_all2 (\<lambda>d r. run d [] = Inr [r]) (matched_fields tus) rs"
    using process_units_appends by blast
  then show ?thesis by (auto simp add: tool_run_def)
qed

lemma main_failed:
  "\<not> list_all parsed_ok tus \<Longrightarrow> main tus = Inr (1, [])"
  using tool_run_result [of tus] by (auto simp add: main_def)

lemma main_succeeded:
  assumes "list_all parsed_ok tus"
  shows "\<exists>rs. tool_run tus [] = Inr (0, rs)
             \<and> main tus = Inr (0, begin_edits @ print_edits rs @ end_edits)
             \<and> list_all2 (\<lambda>d r. run d [] = Inr [r]) (matched_fields tus) rs"
  using tool_run_result [of tus] assms by (auto simp add: main_def)

lemma matchAST_from_empty:
  "\<exists>rs. matchAST ds [] = Inr rs \<and> matchAST ds reps = Inr (reps @ rs)"
proof (induction ds arbitrary: reps)
  case Nil
  show ?case by simp
next
  case (Cons d ds)
  show ?case
  proof (cases "field_decl_matcher d")
    case False
    with Cons.IH [of reps] show ?thesis by simp
  next
    case True
    obtain r where r: "run d [] = Inr [r]" "run d reps = Inr (reps @ [r])"
      using run_matched [OF True] by blast
    obtain rs where rs: "matchAST ds [] = Inr rs" "matchAST ds (reps @ [r]) = Inr ((reps @ [r]) @ rs)"
      using Cons.IH [of "reps @ [r]"] by blast
    obtain rs' where rs': "matchAST ds [] = Inr rs'" "matchAST ds [r] = Inr ([r] @ rs')"
      using Cons.IH [of "[r]"] by blast
    from rs(1) rs'(1) have "rs' = rs" by simp
    with True r rs rs' show ?thesis by simp
  qed
qed

lemma matchAST_unit_edits:
  "matchAST (field_decls tu) reps = Inr (reps @ unit_edits tu)"
  using matchAST_from_empty [of "field_decls tu" reps] by (auto simp add: unit_edits_def)

lemma unit_edits_matched:
  "list_all2 (\<lambda>d r. run d [] = Inr [r]) (filter field_decl_matcher (field_decls tu)) (unit_edits tu)"
  using matchAST_appends [of "field_decls tu" "[]"] by (auto simp add: unit_edits_def)

lemma process_units_unit_edits:
  "process_units tus failed reps
     = Inr (failed \<or> \<not> list_all parsed_ok tus, reps @ concat (map unit_edits tus))"
  by (induction tus arbitrary: failed reps) (auto simp add: matchAST_unit_edits)

lemma main_succeeded_unit_edits:
  "list_all parsed_ok tus \<Longrightarrow>
     main tus = Inr (0, begin_edits @ print_edits (concat (map unit_edits tus)) @ end_edits)"
  using process_units_unit_edits [of tus False "[]"] by (simp add: main_def tool_run_def)

lemma count_list_all2_run:
  "list_all2 (\<lambda>d r. run d [] = Inr [r]) ds rs \<Longrightarrow>
     count_list rs r = length (filter (\<lambda>d. run d [] = Inr [r]) ds)"
  by (induction ds rs rule: list_all2_induct) auto

lemma all_unit_edits_matched:
  "list_all2 (\<lambda>d r. run d [] = Inr [r]) (matched_fields tus) (concat (map unit_edits tus))"
proof (induction tus)
  case Nil
  show ?case by (simp add: matched_fields_def)
next
  case (Cons tu tus)
  then show ?case
    using unit_edits_matched [of tu] by (simp add: matched_fields_def list_all2_appendI)
qed

lemmas example_defs =
  double_ptr_def void_ptr_def field_name_def star_field_def int_field_def SomeClass_def
  double_ptr_src_def void_ptr_src_def field_name_src_def star_src_def
  unit_basics_def unit_broken_def unit_pointee_def unit_no_pointers_def
  unit_includes_pointee_def

lemmas eval_defs =
  main_def tool_run_def field_decl_matcher_def run_def GenerateNewText_def
  Replacement_of_range_def getLocWithOffset_def default_LangOptions_def PrintingPolicy_of_def
  print_edit_def std_replace_def begin_edits_def end_edits_def to_dec.simps digit_char_def
  matched_fields_def unit_edits_def

subsection \<open>The replacement span\<close>

text \<open>
  What \<^verbatim>\<open>run\<close> computes for a field declaration with a pointer type whose declaration
  starts before its name: one replacement, in the declaration's file, from the start of
  the declaration, as long as the distance from there to one byte before the name. The
  bytes it covers end before the byte that precedes the name.
\<close>

lemma run_replacement_span:
  assumes "isPointerType (getType d)" and "getBeginLoc d < getLocation d"
  shows "\<exists>r. run d reps = Inr (reps @ [r])
           \<and> getFilePath r = getFile d
           \<and> getOffset r = getBeginLoc d
           \<and> getLength r = getLocation d - 1 - getBeginLoc d
           \<and> replacement_span r = {unat (getBeginLoc d) ..< unat (getLocation d) - 1}
           \<and> unat (getLocation d) - 1 \<notin> replacement_span r
           \<and> (\<forall>i. unat (getLocation d) \<le> i \<longrightarrow> i \<notin> replacement_span r)
           \<and> (\<forall>e. {unat (getBeginLoc d) ..< e} \<subseteq> replacement_span r
                    \<longleftrightarrow> e \<le> unat (getLocation d) - 1 \<or> e \<le> unat (getBeginLoc d))"
proof -
  from assms(1) obtain q pointee where t: "getType d = PointerType q pointee"
    by (cases "getType d") simp_all
  define r where "r = \<lparr>getFilePath = getFile d, getOffset = getBeginLoc d,
                    getLength = getLocation d - 1 - getBeginLoc d,
                    getReplacementText =
                      ''CheckedPtr<'' @ getAsString \<lparr>SuppressTagKeyword = True\<rparr> pointee @ ''>''\<rparr>"
  have run: "run d reps = Inr (reps @ [r])"
    unfolding r_def by (rule run_pointer [OF t])
  have lt: "unat (getBeginLoc d) < unat (getLocation d)"
    using assms(2) by (simp add: word_less_nat_alt)
  then have nz: "getLocation d \<noteq> 0" by auto
  have u1: "unat (getLocation d - 1) = unat (getLocation d) - 1"
    using nz by (simp add: unat_minus_one)
  have le: "getBeginLoc d \<le> getLocation d - 1"
    using lt u1 by (simp add: word_le_nat_alt)
  have len: "unat (getLocation d - 1 - getBeginLoc d) = unat (getLocation d) - 1 - unat (getBeginLoc d)"
    using le u1 by (simp add: unat_sub)
  have span: "replacement_span r = {unat (getBeginLoc d) ..< unat (getLocation d) - 1}"
    using lt by (simp add: replacement_span_def r_def len)
  have cover: "\<forall>e. {unat (getBeginLoc d) ..< e} \<subseteq> replacement_span r
                    \<longleftrightarrow> e \<le> unat (getLocation d) - 1 \<or> e \<le> unat (getBeginLoc d)"
    unfolding span by auto
  have "unat (getLocation d) - 1 \<notin> replacement_span r"
    unfolding span by simp
  moreover have "\<forall>i. unat (getLocation d) \<le> i \<longrightarrow> i \<notin> replacement_span r"
    unfolding span by auto
  ultimately show ?thesis
    using run span cover by (intro exI [of _ r]) (simp add: r_def)
qed

text \<open>
  Claim C1. The claim says that for every matched field the span runs from the start of
  the declaration to one byte before the name and so covers the full written type,
  pointer stars included; the header of the file (\<^verbatim>\<open>Pointee* field_\<close> becomes
  \<^verbatim>\<open>CheckedPtr<Pointee> field_\<close>) and the diagram in \<^verbatim>\<open>run\<close> say the same. For the example
  of the diagram, \<^verbatim>\<open>const Pointee* const field_name_;\<close>, the replaced text is the whole
  written type. For a field whose star is written next to its name it is not: for
  \<^verbatim>\<open>int *p;\<close> of \<^verbatim>\<open>struct S { int *p; };\<close> the written type \<^verbatim>\<open>int *\<close> is the bytes 11 to 15,
  the replaced text is \<^verbatim>\<open>int \<close>, the star at byte 15 lies outside the span, and applying
  the replacement gives \<^verbatim>\<open>struct S { CheckedPtr<int>*p; };\<close>.
\<close>

theorem star_next_to_name_not_covered:
  "field_decl_matcher field_name
   \<and> run field_name [] =
       Inr [\<lparr>getFilePath = ''pointee.h'', getOffset = 0, getLength = 20,
              getReplacementText = ''CheckedPtr<const Pointee>''\<rparr>]
   \<and> replaced_text field_name_src
        \<lparr>getFilePath = ''pointee.h'', getOffset = 0, getLength = 20,
          getReplacementText = ''CheckedPtr<const Pointee>''\<rparr> = ''const Pointee* const''
   \<and> field_decl_matcher star_field
   \<and> run star_field [] =
       Inr [\<lparr>getFilePath = ''s.h'', getOffset = 11, getLength = 4,
              getReplacementText = ''CheckedPtr<int>''\<rparr>]
   \<and> replaced_text star_src
        \<lparr>getFilePath = ''s.h'', getOffset = 11, getLength = 4,
          getReplacementText = ''CheckedPtr<int>''\<rparr> = ''int ''
   \<and> take 5 (drop 11 star_src) = ''int *''
   \<and> star_src ! 15 = CHR ''*''
   \<and> 15 \<notin> replacement_span
        \<lparr>getFilePath = ''s.h'', getOffset = 11, getLength = 4,
          getReplacementText = ''CheckedPtr<int>''\<rparr>
   \<and> \<not> {11 ..< 16} \<subseteq> replacement_span
        \<lparr>getFilePath = ''s.h'', getOffset = 11, getLength = 4,
          getReplacementText = ''CheckedPtr<int>''\<rparr>
   \<and> apply_replacement star_src
        \<lparr>getFilePath = ''s.h'', getOffset = 11, getLength = 4,
          getReplacementText = ''CheckedPtr<int>''\<rparr> = ''struct S { CheckedPtr<int>*p; };''"
  by (simp add: example_defs eval_defs replaced_text_def replacement_span_def apply_replacement_def)

subsection \<open>The generated text\<close>

text \<open>
  Claim C2. For the field \<^verbatim>\<open>SomeClass** double_ptr;\<close> the callback adds one replacement,
  whose text is \<^verbatim>\<open>CheckedPtr<SomeClass*>\<close> and not \<^verbatim>\<open>CheckedPtr<CheckedPtr<SomeClass>>\<close>;
  applied to the declaration it gives \<^verbatim>\<open>CheckedPtr<SomeClass*> double_ptr;\<close>, and a run of
  the tool over a unit with this one field prints this one edit. In general the text for
  a pointer to a pointer wraps the outer level only: the inner pointer is printed with its
  star.
\<close>

theorem double_ptr_one_level:
  "run double_ptr [] =
       Inr [\<lparr>getFilePath = ''basics.cc'', getOffset = 0, getLength = 11,
              getReplacementText = ''CheckedPtr<SomeClass*>''\<rparr>]
   \<and> GenerateNewText (getType double_ptr) \<noteq> Inr ''CheckedPtr<CheckedPtr<SomeClass>>''
   \<and> apply_replacement double_ptr_src
        \<lparr>getFilePath = ''basics.cc'', getOffset = 0, getLength = 11,
          getReplacementText = ''CheckedPtr<SomeClass*>''\<rparr> = ''CheckedPtr<SomeClass*> double_ptr;''
   \<and> main [\<lparr>parsed_ok = True, field_decls = [double_ptr]\<rparr>] =
       Inr (0, ''==== BEGIN EDITS ===='' @ [newline]
               @ ''r:::basics.cc:::0:::11:::CheckedPtr<SomeClass*>'' @ [newline]
               @ ''==== END EDITS ===='' @ [newline])
   \<and> (\<forall>q q' pointee.
        GenerateNewText (PointerType q (PointerType q' pointee)) =
          Inr (''CheckedPtr<'' @ getAsString \<lparr>SuppressTagKeyword = True\<rparr> pointee
                 @ ''*'' @ qualifiers_after q' @ ''>''))"
  by (simp add: example_defs eval_defs apply_replacement_def)

text \<open>
  Claim C3. For a pointer whose pointee is the tag type named \<^verbatim>\<open>SomeClass\<close>, whatever its
  tag kind and whether or not its use was written with the keyword, the generated text is
  \<^verbatim>\<open>CheckedPtr<SomeClass>\<close>: so it is for \<^verbatim>\<open>SomeClass*\<close> and for \<^verbatim>\<open>class SomeClass*\<close>. The
  policy a default \<^verbatim>\<open>LangOptions\<close> gives would have printed the keyword.
\<close>

theorem tag_keyword_suppressed:
  "GenerateNewText (PointerType q (TagType unqualified written_with_keyword kind ''SomeClass''))
     = Inr ''CheckedPtr<SomeClass>''
   \<and> GenerateNewText (PointerType unqualified (TagType unqualified False TTK_Class ''SomeClass''))
     = Inr ''CheckedPtr<SomeClass>''
   \<and> GenerateNewText (PointerType unqualified (TagType unqualified True TTK_Class ''SomeClass''))
     = Inr ''CheckedPtr<SomeClass>''
   \<and> getAsString (PrintingPolicy_of default_LangOptions)
        (TagType unqualified True TTK_Class ''SomeClass'') = ''class SomeClass''"
  by (simp add: GenerateNewText_def default_LangOptions_def PrintingPolicy_of_def)

text \<open>
  Claim C7. The generated text is \<^verbatim>\<open>CheckedPtr<\<close>, the rendered pointee and \<^verbatim>\<open>>\<close>, whatever
  the qualifiers of the pointer itself: it is the text generated for the unqualified
  pointer. The printer would render \<^verbatim>\<open>SomeClass* const\<close> with its \<^verbatim>\<open>const\<close>; the generated
  text for it is \<^verbatim>\<open>CheckedPtr<SomeClass>\<close>, and for \<^verbatim>\<open>const Pointee* const\<close> it is
  \<^verbatim>\<open>CheckedPtr<const Pointee>\<close>, which keeps the qualifier of the pointee only.
\<close>

theorem pointer_qualifiers_dropped:
  "GenerateNewText (PointerType q pointee) =
     Inr (''CheckedPtr<'' @ getAsString \<lparr>SuppressTagKeyword = True\<rparr> pointee @ ''>'')
   \<and> GenerateNewText (PointerType q pointee) = GenerateNewText (PointerType unqualified pointee)
   \<and> getAsString \<lparr>SuppressTagKeyword = True\<rparr> (PointerType (Qualifiers True False) SomeClass)
       = ''SomeClass* const''
   \<and> GenerateNewText (PointerType (Qualifiers True False) SomeClass) = Inr ''CheckedPtr<SomeClass>''
   \<and> run field_name [] =
       Inr [\<lparr>getFilePath = ''pointee.h'', getOffset = 0, getLength = 20,
              getReplacementText = ''CheckedPtr<const Pointee>''\<rparr>]"
  by (simp add: example_defs eval_defs)

text \<open>
  Claim C8. For the field \<^verbatim>\<open>void* void_ptr;\<close> the callback adds one replacement with the
  text \<^verbatim>\<open>CheckedPtr<void>\<close>; applied to the declaration it gives
  \<^verbatim>\<open>CheckedPtr<void> void_ptr;\<close>.
\<close>

theorem void_ptr_rewrite:
  "run void_ptr [] =
       Inr [\<lparr>getFilePath = ''basics.cc'', getOffset = 0, getLength = 5,
              getReplacementText = ''CheckedPtr<void>''\<rparr>]
   \<and> apply_replacement void_ptr_src
        \<lparr>getFilePath = ''basics.cc'', getOffset = 0, getLength = 5,
          getReplacementText = ''CheckedPtr<void>''\<rparr> = ''CheckedPtr<void> void_ptr;''"
  by (simp add: example_defs eval_defs apply_replacement_def)

subsection \<open>Assertions\<close>

text \<open>
  Claim C9. On a declaration whose type is not a pointer type, \<^verbatim>\<open>run\<close> fails its
  assertion, and so does \<^verbatim>\<open>GenerateNewText\<close> on that type: the result is the failed
  assertion, which aborts the process, and no replacement is added. On a declaration the
  field matcher accepts, neither assertion fails: \<^verbatim>\<open>run\<close> adds a replacement and
  \<^verbatim>\<open>GenerateNewText\<close> returns a text. The assertion of \<^verbatim>\<open>GenerateNewText\<close> is never the one
  that fails in \<^verbatim>\<open>run\<close>, and \<^verbatim>\<open>main\<close>, which calls \<^verbatim>\<open>run\<close> on matches only, always
  returns.
\<close>

theorem assertions_fatal_and_unreachable:
  "(\<not> isPointerType (getType d) \<longrightarrow>
      run d reps = Inl Matcher_should_only_match_pointer_types
      \<and> GenerateNewText (getType d) = Inl Caller_must_pass_a_pointer_type)
   \<and> (field_decl_matcher d \<longrightarrow>
        (\<exists>r text. run d reps = Inr (reps @ [r]) \<and> GenerateNewText (getType d) = Inr text))
   \<and> run d reps \<noteq> Inl Caller_must_pass_a_pointer_type
   \<and> (\<exists>status out. main tus = Inr (status, out))"
proof (intro conjI impI)
  assume "\<not> isPointerType (getType d)"
  then show "run d reps = Inl Matcher_should_only_match_pointer_types"
    by (rule run_not_pointer)
next
  assume "\<not> isPointerType (getType d)"
  then show "GenerateNewText (getType d) = Inl Caller_must_pass_a_pointer_type"
    by (rule GenerateNewText_not_pointer)
next
  assume m: "field_decl_matcher d"
  then obtain q pointee where t: "getType d = PointerType q pointee"
    by (cases "getType d") (simp_all add: field_decl_matcher_def)
  from m obtain r where "run d reps = Inr (reps @ [r])"
    using run_matched by blast
  moreover have "\<exists>text. GenerateNewText (getType d) = Inr text"
    by (simp add: t GenerateNewText_pointer)
  ultimately show "\<exists>r text. run d reps = Inr (reps @ [r]) \<and> GenerateNewText (getType d) = Inr text"
    by blast
next
  show "run d reps \<noteq> Inl Caller_must_pass_a_pointer_type"
  proof (cases "getType d")
    case (PointerType q pointee)
    then show ?thesis using run_pointer [of d q pointee reps] by simp
  qed (simp_all add: run_def)
next
  show "\<exists>status out. main tus = Inr (status, out)"
  proof (cases "list_all parsed_ok tus")
    case True
    then show ?thesis using main_succeeded [of tus] by blast
  next
    case False
    then show ?thesis using main_failed [of tus] by blast
  qed
qed

text \<open>The theorem at \<^verbatim>\<open>int n;\<close>, which is not a pointer, and at \<^verbatim>\<open>void* void_ptr;\<close>.\<close>

theorem assertions_fatal_and_unreachable_witness:
  "\<not> isPointerType (getType int_field)
   \<and> run int_field [] = Inl Matcher_should_only_match_pointer_types
   \<and> GenerateNewText (getType int_field) = Inl Caller_must_pass_a_pointer_type
   \<and> field_decl_matcher void_ptr
   \<and> run void_ptr [] =
       Inr [\<lparr>getFilePath = ''basics.cc'', getOffset = 0, getLength = 5,
              getReplacementText = ''CheckedPtr<void>''\<rparr>]
   \<and> GenerateNewText (getType void_ptr) = Inr ''CheckedPtr<void>''"
  using assertions_fatal_and_unreachable [of int_field "[]" "[unit_basics]"]
        assertions_fatal_and_unreachable [of void_ptr "[]" "[unit_basics]"]
  by (simp add: example_defs eval_defs)

subsection \<open>The run as a whole\<close>

text \<open>
  Claim C4, as the code has it. If some translation unit fails, the process returns a
  nonzero status and writes nothing, not even the marker lines. If every unit succeeds,
  it returns 0 and writes the begin marker, the edits and the end marker, where the edits
  are the edits of the first unit, then those of the second, and so on. The edits of a
  unit are one for each of its matched fields, in order, each the replacement \<^verbatim>\<open>run\<close>
  makes for that field; so the edits written are, in order, one for each matched field of
  all units, and an edit is written as many times as there are matched fields, over all
  units, whose replacement it is. Nothing is written once only because it is the same
  edit.
\<close>

theorem all_or_nothing:
  "(\<not> list_all parsed_ok tus \<longrightarrow> (\<exists>status. status \<noteq> 0 \<and> main tus = Inr (status, [])))
   \<and> (list_all parsed_ok tus \<longrightarrow>
        main tus = Inr (0, begin_edits @ print_edits (concat (map unit_edits tus)) @ end_edits))
   \<and> list_all2 (\<lambda>d r. run d [] = Inr [r])
        (filter field_decl_matcher (field_decls tu)) (unit_edits tu)
   \<and> list_all2 (\<lambda>d r. run d [] = Inr [r]) (matched_fields tus) (concat (map unit_edits tus))
   \<and> count_list (concat (map unit_edits tus)) r
        = length (filter (\<lambda>d. run d [] = Inr [r]) (matched_fields tus))"
proof (intro conjI impI)
  assume "\<not> list_all parsed_ok tus"
  then have "main tus = Inr (1, [])" by (rule main_failed)
  then show "\<exists>status. status \<noteq> 0 \<and> main tus = Inr (status, [])" by simp
next
  assume "list_all parsed_ok tus"
  then show "main tus = Inr (0, begin_edits @ print_edits (concat (map unit_edits tus)) @ end_edits)"
    by (rule main_succeeded_unit_edits)
next
  show "list_all2 (\<lambda>d r. run d [] = Inr [r])
        (filter field_decl_matcher (field_decls tu)) (unit_edits tu)"
    by (rule unit_edits_matched)
next
  show "list_all2 (\<lambda>d r. run d [] = Inr [r]) (matched_fields tus) (concat (map unit_edits tus))"
    by (rule all_unit_edits_matched)
next
  show "count_list (concat (map unit_edits tus)) r
        = length (filter (\<lambda>d. run d [] = Inr [r]) (matched_fields tus))"
    by (rule count_list_all2_run) (rule all_unit_edits_matched)
qed

text \<open>The theorem at three units of which the second fails, and at two units that both
  succeed.\<close>

theorem all_or_nothing_witness:
  "\<not> list_all parsed_ok [unit_basics, unit_broken, unit_pointee]
   \<and> main [unit_basics, unit_broken, unit_pointee] = Inr (1, [])
   \<and> list_all parsed_ok [unit_basics, unit_pointee]
   \<and> matched_fields [unit_basics, unit_pointee] = [double_ptr, void_ptr, field_name]
   \<and> concat (map unit_edits [unit_basics, unit_pointee]) =
       [\<lparr>getFilePath = ''basics.cc'', getOffset = 0, getLength = 11,
          getReplacementText = ''CheckedPtr<SomeClass*>''\<rparr>,
        \<lparr>getFilePath = ''basics.cc'', getOffset = 0, getLength = 5,
          getReplacementText = ''CheckedPtr<void>''\<rparr>,
        \<lparr>getFilePath = ''pointee.h'', getOffset = 0, getLength = 20,
          getReplacementText = ''CheckedPtr<const Pointee>''\<rparr>]
   \<and> main [unit_basics, unit_pointee] =
       Inr (0, ''==== BEGIN EDITS ===='' @ [newline]
               @ ''r:::basics.cc:::0:::11:::CheckedPtr<SomeClass*>'' @ [newline]
               @ ''r:::basics.cc:::0:::5:::CheckedPtr<void>'' @ [newline]
               @ ''r:::pointee.h:::0:::20:::CheckedPtr<const Pointee>'' @ [newline]
               @ ''==== END EDITS ===='' @ [newline])"
  using all_or_nothing [of "[unit_basics, unit_broken, unit_pointee]"]
        all_or_nothing [of "[unit_basics, unit_pointee]"]
  by (simp add: example_defs eval_defs)

text \<open>
  Claim C4, as the spec words it, says that the union of the units' edits is written,
  each edit once. An edit that two units have is written twice: a unit that includes
  \<^verbatim>\<open>pointee.h\<close> matches the field of that header as the unit of the header itself does,
  and the record of that field is printed for both.
\<close>

theorem shared_field_emitted_twice:
  "list_all parsed_ok [unit_pointee, unit_includes_pointee]
   \<and> unit_edits unit_pointee =
       [\<lparr>getFilePath = ''pointee.h'', getOffset = 0, getLength = 20,
          getReplacementText = ''CheckedPtr<const Pointee>''\<rparr>]
   \<and> unit_edits unit_includes_pointee =
       [\<lparr>getFilePath = ''pointee.h'', getOffset = 0, getLength = 20,
          getReplacementText = ''CheckedPtr<const Pointee>''\<rparr>,
        \<lparr>getFilePath = ''s.h'', getOffset = 11, getLength = 4,
          getReplacementText = ''CheckedPtr<int>''\<rparr>]
   \<and> main [unit_pointee, unit_includes_pointee] =
       Inr (0, ''==== BEGIN EDITS ===='' @ [newline]
               @ ''r:::pointee.h:::0:::20:::CheckedPtr<const Pointee>'' @ [newline]
               @ ''r:::pointee.h:::0:::20:::CheckedPtr<const Pointee>'' @ [newline]
               @ ''r:::s.h:::11:::4:::CheckedPtr<int>'' @ [newline]
               @ ''==== END EDITS ===='' @ [newline])
   \<and> \<not> distinct (concat (map unit_edits [unit_pointee, unit_includes_pointee]))"
  by (simp add: example_defs eval_defs)

text \<open>
  Claim C10. If every translation unit succeeds and no field declaration matches, the
  process returns 0 and writes the two marker lines with nothing between them.
\<close>

theorem no_match_still_emits_markers:
  assumes "list_all parsed_ok tus" and "matched_fields tus = []"
  shows "main tus = Inr (0, ''==== BEGIN EDITS ===='' @ [newline] @ ''==== END EDITS ===='' @ [newline])"
proof -
  obtain rs where rs: "main tus = Inr (0, begin_edits @ print_edits rs @ end_edits)"
    "list_all2 (\<lambda>d r. run d [] = Inr [r]) (matched_fields tus) rs"
    using main_succeeded [OF assms(1)] by blast
  from rs(2) assms(2) have "rs = []" by simp
  with rs(1) show ?thesis by (simp add: begin_edits_def end_edits_def)
qed

text \<open>The theorem at two units whose only field is \<^verbatim>\<open>int n;\<close>.\<close>

theorem no_match_still_emits_markers_witness:
  "list_all parsed_ok [unit_no_pointers, unit_no_pointers]
   \<and> matched_fields [unit_no_pointers, unit_no_pointers] = []
   \<and> main [unit_no_pointers, unit_no_pointers] =
       Inr (0, ''==== BEGIN EDITS ===='' @ [newline] @ ''==== END EDITS ===='' @ [newline])"
proof -
  have h1: "list_all parsed_ok [unit_no_pointers, unit_no_pointers]"
    by (simp add: unit_no_pointers_def)
  have h2: "matched_fields [unit_no_pointers, unit_no_pointers] = []"
    by (simp add: matched_fields_def unit_no_pointers_def int_field_def field_decl_matcher_def)
  show ?thesis
    using h1 h2 no_match_still_emits_markers [OF h1 h2] by simp
qed

subsection \<open>The serialized edits\<close>

lemma digit_char_is_digit: "d < 10 \<Longrightarrow> digit_char d \<in> set ''0123456789''"
  unfolding digit_char_def by (rule nth_mem) simp

lemma digit_value_digit_char: "d < 10 \<Longrightarrow> digit_value (digit_char d) = Some d"
proof -
  assume "d < 10"
  then have "d \<in> {0, 1, 2, 3, 4, 5, 6, 7, 8, 9}" by auto
  then show ?thesis
    by (auto simp add: digit_char_def digit_value_def)
qed

lemma to_dec_digits: "set (to_dec n) \<subseteq> set ''0123456789''"
proof (induction n rule: to_dec.induct)
  case (1 n)
  show ?case
  proof (cases "n < 10")
    case True
    then show ?thesis
      using digit_char_is_digit [of n] by (subst to_dec.simps) simp
  next
    case False
    have "n mod 10 < 10" by simp
    then have "digit_char (n mod 10) \<in> set ''0123456789''" by (rule digit_char_is_digit)
    with False "1.IH" show ?thesis
      by (subst to_dec.simps) simp
  qed
qed

lemma to_dec_not_Nil: "to_dec n \<noteq> []"
  by (subst to_dec.simps) simp

lemma from_dec_digits_append:
  "from_dec_digits (xs @ ys) acc =
     (case from_dec_digits xs acc of None \<Rightarrow> None | Some a \<Rightarrow> from_dec_digits ys a)"
  by (induction xs arbitrary: acc) (simp_all split: option.splits)

lemma from_dec_digits_to_dec: "from_dec_digits (to_dec n) 0 = Some n"
proof (induction n rule: to_dec.induct)
  case (1 n)
  show ?case
  proof (cases "n < 10")
    case True
    then show ?thesis
      by (subst to_dec.simps) (simp add: digit_value_digit_char)
  next
    case False
    have "from_dec_digits (to_dec (n div 10) @ [digit_char (n mod 10)]) 0 = Some n"
      using False "1.IH" by (simp add: from_dec_digits_append digit_value_digit_char)
    with False show ?thesis
      by (subst to_dec.simps) simp
  qed
qed

lemma from_dec_to_dec: "from_dec (to_dec n) = Some n"
  by (simp add: from_dec_def to_dec_not_Nil from_dec_digits_to_dec)

lemma no_delimiter_without_colon:
  "CHR '':'' \<notin> set a \<Longrightarrow> \<not> has_delimiter (a @ ''::'')"
  by (induction a) auto

lemma to_dec_no_delimiter: "\<not> has_delimiter (to_dec n @ ''::'')"
proof -
  have "CHR '':'' \<notin> set ''0123456789''" by simp
  with to_dec_digits [of n] have "CHR '':'' \<notin> set (to_dec n)" by blast
  then show ?thesis by (rule no_delimiter_without_colon)
qed

lemma to_dec_no_newline: "newline \<notin> set (to_dec n)"
proof -
  have "newline \<notin> set ''0123456789''" by simp
  with to_dec_digits [of n] show ?thesis by blast
qed


lemma split_fields_at_delimiter:
  "\<not> has_delimiter (a @ ''::'') \<Longrightarrow> split_fields (a @ '':::'' @ b) = a # split_fields b"
proof (induction a)
  case Nil
  show ?case by simp
next
  case (Cons c a)
  from Cons.prems have no: "take 3 ((c # a) @ ''::'') \<noteq> '':::''" and rest: "\<not> has_delimiter (a @ ''::'')"
    by simp_all
  have "take 3 ((c # a) @ '':::'' @ b) = take 3 ((c # a) @ ''::'')"
    by (cases a) (simp_all, (cases "tl a", simp_all)?)
  with no have "take 3 (c # (a @ '':::'' @ b)) \<noteq> '':::''" by simp
  moreover have "split_fields (a @ '':::'' @ b) = a # split_fields b"
    using Cons.IH rest by simp
  ultimately show ?case by simp
qed

lemma split_fields_last: "\<not> has_delimiter t \<Longrightarrow> split_fields t = [t]"
proof (induction t)
  case Nil
  show ?case by simp
next
  case (Cons c t)
  then show ?case by simp
qed

lemma ends_with_colon_last: "ends_with_colon s \<longleftrightarrow> s \<noteq> [] \<and> last s = CHR '':''"
  by (cases s rule: rev_cases) (simp_all add: ends_with_colon_def)

lemma no_delimiter_path:
  assumes "\<not> has_delimiter p" and "\<not> ends_with_colon p"
  shows "\<not> has_delimiter (p @ ''::'')"
  using assms
proof (induction p)
  case Nil
  show ?case by simp
next
  case (Cons c p)
  show ?case
  proof (cases p)
    case Nil
    with Cons.prems show ?thesis by (simp add: ends_with_colon_last)
  next
    case (Cons d p')
    note p = this
    from Cons.prems p have e: "\<not> ends_with_colon p"
      by (simp add: ends_with_colon_last)
    from Cons.prems have "\<not> has_delimiter p" by simp
    with e Cons.IH have ih: "\<not> has_delimiter (p @ ''::'')" by simp
    show ?thesis
    proof (cases p')
      case Nil
      with p Cons.prems ih show ?thesis by (auto simp add: ends_with_colon_last)
    next
      case (Cons e' p'')
      with p \<open>\<not> has_delimiter (c # p)\<close> ih show ?thesis by simp
    qed
  qed
qed

lemma has_delimiter_std_replace:
  "has_delimiter (std_replace newline NUL t) = has_delimiter t"
proof (induction t)
  case Nil
  show ?case by (simp add: std_replace_def)
next
  case (Cons c t)
  have "take 3 (std_replace newline NUL (c # t)) = '':::'' \<longleftrightarrow> take 3 (c # t) = '':::''"
    by (cases t; cases "tl t") (auto simp add: std_replace_def)
  with Cons.IH show ?case
    by (simp add: std_replace_def)
qed

lemma std_replace_back:
  "NUL \<notin> set t \<Longrightarrow> std_replace NUL newline (std_replace newline NUL t) = t"
  by (induction t) (auto simp add: std_replace_def)

lemma print_edits_concat: "print_edits rs = concat (map print_edit rs)"
  by (induction rs) simp_all

lemma print_edit_line:
  "print_edit r =
     (''r'' @ '':::'' @ getFilePath r @ '':::'' @ to_dec (unat (getOffset r)) @ '':::''
        @ to_dec (unat (getLength r)) @ '':::'' @ std_replace newline NUL (getReplacementText r))
     @ [newline]"
  by (simp add: print_edit_def)

lemma read_lines_from_line:
  "newline \<notin> set body \<Longrightarrow>
     read_lines_from cur (body @ newline # rest) = (rev cur @ body) # read_lines_from [] rest"
  by (induction body arbitrary: cur) auto

lemma read_lines_one_line:
  "newline \<notin> set body \<Longrightarrow> read_lines (body @ [newline]) = [body]"
  using read_lines_from_line [of body "[]" "[]"] by (simp add: read_lines_def)

lemma std_replace_no_newline: "newline \<notin> set (std_replace newline NUL t)"
  by (auto simp add: std_replace_def)

lemma read_lines_print_edit:
  assumes "newline \<notin> set (getFilePath r)"
  shows "read_lines (print_edit r) =
           [''r'' @ '':::'' @ getFilePath r @ '':::'' @ to_dec (unat (getOffset r)) @ '':::''
              @ to_dec (unat (getLength r)) @ '':::''
              @ std_replace newline NUL (getReplacementText r)]"
  unfolding print_edit_line
  by (rule read_lines_one_line)
     (use assms to_dec_no_newline std_replace_no_newline in auto)

lemma split_fields_print_edit:
  assumes "\<not> has_delimiter (getFilePath r)" and "\<not> ends_with_colon (getFilePath r)"
    and "\<not> has_delimiter (getReplacementText r)"
  shows "split_fields
           (''r'' @ '':::'' @ getFilePath r @ '':::'' @ to_dec (unat (getOffset r)) @ '':::''
              @ to_dec (unat (getLength r)) @ '':::''
              @ std_replace newline NUL (getReplacementText r)) =
           [''r'', getFilePath r, to_dec (unat (getOffset r)), to_dec (unat (getLength r)),
            std_replace newline NUL (getReplacementText r)]"
proof -
  let ?t = "std_replace newline NUL (getReplacementText r)"
  let ?l = "to_dec (unat (getLength r))"
  let ?o = "to_dec (unat (getOffset r))"
  let ?p = "getFilePath r"
  have t: "split_fields ?t = [?t]"
    using assms(3) by (intro split_fields_last) (simp add: has_delimiter_std_replace)
  have l: "split_fields (?l @ '':::'' @ ?t) = ?l # split_fields ?t"
    by (rule split_fields_at_delimiter) (rule to_dec_no_delimiter)
  have o: "split_fields (?o @ '':::'' @ ?l @ '':::'' @ ?t) = ?o # split_fields (?l @ '':::'' @ ?t)"
    by (rule split_fields_at_delimiter) (rule to_dec_no_delimiter)
  have p: "split_fields (?p @ '':::'' @ ?o @ '':::'' @ ?l @ '':::'' @ ?t)
             = ?p # split_fields (?o @ '':::'' @ ?l @ '':::'' @ ?t)"
    by (rule split_fields_at_delimiter) (rule no_delimiter_path [OF assms(1) assms(2)])
  have r: "split_fields (''r'' @ '':::'' @ ?p @ '':::'' @ ?o @ '':::'' @ ?l @ '':::'' @ ?t)
             = ''r'' # split_fields (?p @ '':::'' @ ?o @ '':::'' @ ?l @ '':::'' @ ?t)"
    by (rule split_fields_at_delimiter) simp
  show ?thesis
    by (simp only: r p o l t)
qed

text \<open>
  Claim C5, as the code has it. Every replacement is printed as \<^verbatim>\<open>r:::\<close>, its file path,
  \<^verbatim>\<open>:::\<close>, its offset in decimal, \<^verbatim>\<open>:::\<close>, its length in decimal, \<^verbatim>\<open>:::\<close>, its text with
  every newline byte replaced by a null byte, and a newline; path and text are printed as
  they are otherwise, a delimiter inside them included. The printed text holds no newline,
  so the record has as many newline bytes as its path and one more: it is exactly one
  line when the path holds no newline. A run whose tool result is 0 writes the begin
  marker line, these records in order and the end marker line.
\<close>

theorem print_edit_format:
  "print_edit r =
     ''r:::'' @ getFilePath r @ '':::'' @ to_dec (unat (getOffset r)) @ '':::''
       @ to_dec (unat (getLength r)) @ '':::''
       @ map (\<lambda>c. if c = newline then NUL else c) (getReplacementText r) @ [newline]
   \<and> newline \<notin> set (map (\<lambda>c. if c = newline then NUL else c) (getReplacementText r))
   \<and> count_list (print_edit r) newline = 1 + count_list (getFilePath r) newline
   \<and> (newline \<notin> set (getFilePath r) \<longrightarrow>
        (\<exists>body. print_edit r = body @ [newline] \<and> newline \<notin> set body))
   \<and> (tool_run tus [] = Inr (0, rs) \<longrightarrow>
        main tus = Inr (0, ''==== BEGIN EDITS ===='' @ [newline]
                           @ concat (map print_edit rs)
                           @ ''==== END EDITS ===='' @ [newline]))"
proof (intro conjI impI)
  show fmt: "print_edit r =
     ''r:::'' @ getFilePath r @ '':::'' @ to_dec (unat (getOffset r)) @ '':::''
       @ to_dec (unat (getLength r)) @ '':::''
       @ map (\<lambda>c. if c = newline then NUL else c) (getReplacementText r) @ [newline]"
    by (simp add: print_edit_def std_replace_def)
  show nl: "newline \<notin> set (map (\<lambda>c. if c = newline then NUL else c) (getReplacementText r))"
    by auto
  have zero: "count_list (to_dec n) newline = 0" for n
    using to_dec_no_newline [of n] by (simp add: count_list_0_iff)
  have zero_text:
    "count_list (map (\<lambda>c. if c = newline then NUL else c) (getReplacementText r)) newline = 0"
    using nl by (simp only: count_list_0_iff not_False_eq_True)
  show "count_list (print_edit r) newline = 1 + count_list (getFilePath r) newline"
    unfolding fmt by (simp add: zero zero_text)
  {
    assume p: "newline \<notin> set (getFilePath r)"
    let ?body = "''r:::'' @ getFilePath r @ '':::'' @ to_dec (unat (getOffset r)) @ '':::''
       @ to_dec (unat (getLength r)) @ '':::''
       @ map (\<lambda>c. if c = newline then NUL else c) (getReplacementText r)"
    have "print_edit r = ?body @ [newline]"
      unfolding fmt by simp
    moreover have "newline \<notin> set ?body"
      using p to_dec_no_newline by auto
    ultimately show "\<exists>body. print_edit r = body @ [newline] \<and> newline \<notin> set body"
      by blast
  }
  {
    assume "tool_run tus [] = Inr (0, rs)"
    then show "main tus = Inr (0, ''==== BEGIN EDITS ===='' @ [newline]
                           @ concat (map print_edit rs)
                           @ ''==== END EDITS ===='' @ [newline])"
      by (simp add: main_def begin_edits_def end_edits_def print_edits_concat)
  }
qed

text \<open>The theorem at a replacement whose path holds the delimiter and whose text holds a
  newline, and at the run over the unit of \<^verbatim>\<open>const Pointee* const field_name_;\<close>.\<close>

theorem print_edit_format_witness:
  "print_edit \<lparr>getFilePath = ''a:::b.cc'', getOffset = 120, getLength = 5,
                getReplacementText = ''Checked'' @ [newline] @ ''Ptr<void>''\<rparr>
     = ''r:::a:::b.cc:::120:::5:::Checked'' @ [NUL] @ ''Ptr<void>'' @ [newline]
   \<and> newline \<notin> set ''a:::b.cc''
   \<and> count_list (print_edit \<lparr>getFilePath = ''a:::b.cc'', getOffset = 120, getLength = 5,
                getReplacementText = ''Checked'' @ [newline] @ ''Ptr<void>''\<rparr>) newline = 1
   \<and> tool_run [unit_pointee] [] =
       Inr (0, [\<lparr>getFilePath = ''pointee.h'', getOffset = 0, getLength = 20,
                  getReplacementText = ''CheckedPtr<const Pointee>''\<rparr>])
   \<and> main [unit_pointee] =
       Inr (0, ''==== BEGIN EDITS ===='' @ [newline]
               @ ''r:::pointee.h:::0:::20:::CheckedPtr<const Pointee>'' @ [newline]
               @ ''==== END EDITS ===='' @ [newline])"
  using print_edit_format
          [of "\<lparr>getFilePath = ''a:::b.cc'', getOffset = 120, getLength = 5,
                 getReplacementText = ''Checked'' @ [newline] @ ''Ptr<void>''\<rparr>"
              "[unit_pointee]"
              "[\<lparr>getFilePath = ''pointee.h'', getOffset = 0, getLength = 20,
                  getReplacementText = ''CheckedPtr<const Pointee>''\<rparr>]"]
  by (simp add: example_defs eval_defs)

text \<open>
  Claim C5, as the spec words it, says that every record is exactly one line. Only the
  text has its newlines replaced: a replacement in a file whose path holds a newline
  byte is printed as two lines.
\<close>

theorem newline_in_path_two_lines:
  "print_edit \<lparr>getFilePath = ''a'' @ [newline] @ ''b.cc'', getOffset = 0, getLength = 0,
                getReplacementText = ''x''\<rparr>
     = ''r:::a'' @ [newline] @ ''b.cc:::0:::0:::x'' @ [newline]
   \<and> count_list (print_edit \<lparr>getFilePath = ''a'' @ [newline] @ ''b.cc'', getOffset = 0,
                getLength = 0, getReplacementText = ''x''\<rparr>) newline = 2"
  by (simp add: print_edit_def std_replace_def to_dec.simps digit_char_def)

text \<open>
  Claim C6, as the reader allows it. For every replacement whose file path and text are
  free of the delimiter, whose text holds no null byte, and whose file path neither ends
  with a colon nor holds a newline byte, reading the printed record line by line gives
  one line, and parsing it gives the replacement back: file, offset, length and text, the
  null bytes decoded to newlines.
\<close>

theorem parse_print_round_trip:
  fixes r :: Replacement
  assumes "\<not> has_delimiter (getFilePath r)" and "\<not> ends_with_colon (getFilePath r)"
    and "newline \<notin> set (getFilePath r)"
    and "\<not> has_delimiter (getReplacementText r)" and "NUL \<notin> set (getReplacementText r)"
  shows "parse_edits (print_edit r) = [Some r]"
proof -
  have "parse_edits (print_edit r) =
          [Some \<lparr>getFilePath = getFilePath r, getOffset = of_nat (unat (getOffset r)),
                getLength = of_nat (unat (getLength r)),
                getReplacementText =
                  std_replace NUL newline (std_replace newline NUL (getReplacementText r))\<rparr>]"
    unfolding parse_edits_def read_lines_print_edit [OF assms(3)] list.map parse_edit_def
      split_fields_print_edit [OF assms(1) assms(2) assms(4)]
    by (simp add: from_dec_to_dec)
  also have "\<dots> = [Some r]"
    using assms(5) by (simp add: std_replace_back)
  finally show ?thesis .
qed

text \<open>The theorem at a replacement whose text holds a newline.\<close>

theorem parse_print_round_trip_witness:
  "\<not> has_delimiter ''basics.cc''
   \<and> \<not> ends_with_colon ''basics.cc''
   \<and> newline \<notin> set ''basics.cc''
   \<and> \<not> has_delimiter (''Checked'' @ [newline] @ ''Ptr<void>'')
   \<and> NUL \<notin> set (''Checked'' @ [newline] @ ''Ptr<void>'')
   \<and> print_edit \<lparr>getFilePath = ''basics.cc'', getOffset = 120, getLength = 5,
                  getReplacementText = ''Checked'' @ [newline] @ ''Ptr<void>''\<rparr>
       = ''r:::basics.cc:::120:::5:::Checked'' @ [NUL] @ ''Ptr<void>'' @ [newline]
   \<and> parse_edits (''r:::basics.cc:::120:::5:::Checked'' @ [NUL] @ ''Ptr<void>'' @ [newline])
       = [Some \<lparr>getFilePath = ''basics.cc'', getOffset = 120, getLength = 5,
                 getReplacementText = ''Checked'' @ [newline] @ ''Ptr<void>''\<rparr>]"
  using parse_print_round_trip
          [of "\<lparr>getFilePath = ''basics.cc'', getOffset = 120, getLength = 5,
                 getReplacementText = ''Checked'' @ [newline] @ ''Ptr<void>''\<rparr>"]
  by (simp add: ends_with_colon_def print_edit_def std_replace_def to_dec.simps digit_char_def)

text \<open>
  Claim C6, as the spec words it, asks only that path and text are free of the delimiter.
  A path that ends with a colon is free of it, but its last colon and the delimiter that
  follows form a delimiter one byte early: the record of the path \<^verbatim>\<open>a:\<close> is cut into the
  fields \<^verbatim>\<open>r\<close>, \<^verbatim>\<open>a\<close>, \<^verbatim>\<open>:0\<close>, \<^verbatim>\<open>0\<close>, \<^verbatim>\<open>x\<close> and is not parsed back. A path that
  holds a newline byte is free of it too, but its record is printed as two lines, and
  neither line is parsed as a record.
\<close>

theorem path_with_colon_or_newline_not_parsed_back:
  "\<not> has_delimiter ''a:''
   \<and> \<not> has_delimiter ''x''
   \<and> NUL \<notin> set ''x''
   \<and> print_edit \<lparr>getFilePath = ''a:'', getOffset = 0, getLength = 0, getReplacementText = ''x''\<rparr>
       = ''r:::a::::0:::0:::x'' @ [newline]
   \<and> read_lines (''r:::a::::0:::0:::x'' @ [newline]) = [''r:::a::::0:::0:::x'']
   \<and> split_fields ''r:::a::::0:::0:::x'' = [''r'', ''a'', '':0'', ''0'', ''x'']
   \<and> parse_edits (print_edit
        \<lparr>getFilePath = ''a:'', getOffset = 0, getLength = 0, getReplacementText = ''x''\<rparr>) = [None]
   \<and> \<not> has_delimiter (''a'' @ [newline] @ ''b.cc'')
   \<and> \<not> ends_with_colon (''a'' @ [newline] @ ''b.cc'')
   \<and> read_lines (print_edit
        \<lparr>getFilePath = ''a'' @ [newline] @ ''b.cc'', getOffset = 0, getLength = 0,
          getReplacementText = ''x''\<rparr>) = [''r:::a'', ''b.cc:::0:::0:::x'']
   \<and> parse_edits (print_edit
        \<lparr>getFilePath = ''a'' @ [newline] @ ''b.cc'', getOffset = 0, getLength = 0,
          getReplacementText = ''x''\<rparr>) = [None, None]"
  by (simp add: print_edit_def std_replace_def to_dec.simps digit_char_def parse_edit_def
      parse_edits_def read_lines_def ends_with_colon_def from_dec_def digit_value_def)

end
